theory Spec2Isabelle
  imports Main "HOL-Library.Word" "HOL-Library.Sublist"
begin

section \<open>Strings of the JavaScript runtime\<close>

text \<open>
  A JavaScript string is a sequence of UTF-16 code units. String literals of the source
  that are plain ASCII are written \<open>js ''...''\<close>.
\<close>

type_synonym codeunit = "16 word"
type_synonym jsstring = "codeunit list"

definition js :: "string \<Rightarrow> jsstring" where
  "js s = map of_char s"

text \<open>
  The characters matched by \<open>\s\<close> in a regular expression and removed by
  \<open>String.prototype.trim\<close>: the WhiteSpace and LineTerminator productions of ECMAScript
  (TAB, LF, VT, FF, CR, SP, NBSP, the Unicode space separators, LS, PS and ZWNBSP).
\<close>

definition isWhiteSpace :: "codeunit \<Rightarrow> bool" where
  "isWhiteSpace c \<longleftrightarrow>
     (0x0009 \<le> c \<and> c \<le> 0x000D) \<or> c = 0x0020 \<or> c = 0x00A0 \<or> c = 0x1680 \<or>
     (0x2000 \<le> c \<and> c \<le> 0x200A) \<or> c = 0x2028 \<or> c = 0x2029 \<or> c = 0x202F \<or>
     c = 0x205F \<or> c = 0x3000 \<or> c = 0xFEFF"

text \<open>\<open>str.trim()\<close>: white space removed at both ends.\<close>

definition trim :: "jsstring \<Rightarrow> jsstring" where
  "trim s = rev (dropWhile isWhiteSpace (rev (dropWhile isWhiteSpace s)))"

text \<open>\<open>str.replace(/\s/g, "")\<close>: every white space character removed.\<close>

definition removeWhiteSpace :: "jsstring \<Rightarrow> jsstring" where
  "removeWhiteSpace s = filter (\<lambda>c. \<not> isWhiteSpace c) s"

text \<open>The characters of the class \<open>[0-9]\<close>.\<close>

definition isDigit :: "codeunit \<Rightarrow> bool" where
  "isDigit c \<longleftrightarrow> 0x30 \<le> c \<and> c \<le> 0x39"

text \<open>\<open>hay.includes(needle)\<close>: \<open>needle\<close> occurs in \<open>hay\<close> as a contiguous run.\<close>

fun includes_str :: "jsstring \<Rightarrow> jsstring \<Rightarrow> bool" where
  "includes_str [] needle = (needle = [])"
| "includes_str (c # cs) needle = (prefix needle (c # cs) \<or> includes_str cs needle)"

section \<open>Regular expressions\<close>

text \<open>
  The fragment of the regular expression syntax that the source uses: the assertions
  empty pattern, the assertions \<open>^\<close> and \<open>$\<close> (no multiline flag), a literal
  character, a character class given by its ranges, alternation, sequence, \<open>r?\<close> and
  \<open>r{m,n}\<close>.
\<close>

datatype regex =
    Eps
  | Bol
  | Eol
  | Chr codeunit
  | Class "(codeunit \<times> codeunit) list"
  | Alt regex regex
  | Seq regex regex
  | Opt regex
  | Rep nat nat regex

text \<open>
  \<open>repeat f m n rest\<close>: every remainder left by matching \<open>f\<close> at least \<open>m\<close> and at
  most \<open>n\<close> times, one after the other, starting at \<open>rest\<close>.
\<close>

fun repeat :: "(jsstring \<Rightarrow> jsstring list) \<Rightarrow> nat \<Rightarrow> nat \<Rightarrow> jsstring \<Rightarrow> jsstring list" where
  "repeat f m 0 rest = (if m = 0 then [rest] else [])"
| "repeat f m (Suc n) rest =
     concat (map (repeat f (m - 1) n) (f rest)) @ (if m = 0 then [rest] else [])"

text \<open>
  The backtracking matcher as a list of successes: \<open>rmatch r input rest\<close> is the list of
  the remainders of the input after each way of matching \<open>r\<close> at the front of \<open>rest\<close>,
  where \<open>rest\<close> is a suffix of \<open>input\<close>. The whole input is kept for \<open>^\<close>.
\<close>

primrec rmatch :: "regex \<Rightarrow> jsstring \<Rightarrow> jsstring \<Rightarrow> jsstring list" where
  "rmatch Eps input rest = [rest]"
| "rmatch Bol input rest = (if length rest = length input then [rest] else [])"
| "rmatch Eol input rest = (if rest = [] then [rest] else [])"
| "rmatch (Chr c) input rest =
     (case rest of [] \<Rightarrow> [] | x # xs \<Rightarrow> if x = c then [xs] else [])"
| "rmatch (Class ranges) input rest =
     (case rest of [] \<Rightarrow> []
      | x # xs \<Rightarrow> if list_ex (\<lambda>(lo, hi). lo \<le> x \<and> x \<le> hi) ranges then [xs] else [])"
| "rmatch (Alt a b) input rest = rmatch a input rest @ rmatch b input rest"
| "rmatch (Seq a b) input rest = concat (map (rmatch b input) (rmatch a input rest))"
| "rmatch (Opt a) input rest = rmatch a input rest @ [rest]"
| "rmatch (Rep m n a) input rest = repeat (rmatch a input) m n rest"

text \<open>
  \<open>regex.test(input)\<close> for a regular expression without the global and sticky flags:
  a match is looked for at every start position of the input.
\<close>

definition matches_at :: "regex \<Rightarrow> jsstring \<Rightarrow> jsstring \<Rightarrow> bool" where
  "matches_at r input start \<longleftrightarrow> rmatch r input start \<noteq> []"

definition regex_test :: "regex \<Rightarrow> jsstring \<Rightarrow> bool" where
  "regex_test r input = list_ex (matches_at r input) (suffixes input)"

text \<open>A sequence of literal characters.\<close>

fun chars :: "jsstring \<Rightarrow> regex" where
  "chars [] = Eps"
| "chars [c] = Chr c"
| "chars (c # cs) = Seq (Chr c) (chars cs)"

section \<open>The page \<open>Home.tsx\<close>\<close>

subsection \<open>Data\<close>

record FormData =
  nom :: jsstring
  filiere :: jsstring
  niveau :: jsstring
  telephone :: jsstring

record Inscription =
  id_insc :: jsstring
  userId :: jsstring
  nom :: jsstring
  filiere :: jsstring
  niveau :: jsstring
  telephone :: jsstring
  dateInscription :: jsstring
  heureInscription :: jsstring

definition MAX_INSCRIPTIONS :: nat where
  "MAX_INSCRIPTIONS = 50"

text \<open>The state held by the component \<open>Home\<close>, one field for each \<open>useState\<close>.\<close>

record State =
  inscriptions :: "Inscription list"
  formData :: FormData
  loading :: bool
  currentUserId :: jsstring
  searchNom :: jsstring
  filterFiliere :: jsstring
  filterNiveau :: jsstring
  showAdvancedSearch :: bool

definition emptyForm :: FormData where
  "emptyForm = \<lparr>FormData.nom = [], filiere = [], niveau = [], telephone = []\<rparr>"

definition initialState :: State where
  "initialState =
     \<lparr>inscriptions = [], formData = emptyForm, loading = False, currentUserId = [],
      searchNom = [], filterFiliere = [], filterNiveau = [], showAdvancedSearch = False\<rparr>"

text \<open>
  The messages shown by \<open>toast.error\<close> and \<open>toast.success\<close>, in the order in which they
  appear in the source.
\<close>

datatype error_message =
    NomManquant
  | FiliereManquante
  | NiveauManquant
  | TelephoneInvalide
  | TelephoneDejaInscrit
  | MaximumAtteint
  | InscriptionNonTrouvee
  | SuppressionInterdite

datatype success_message = InscriptionReussie | InscriptionSupprimee

datatype toast = ToastError error_message | ToastSuccess success_message

subsection \<open>Validation and submission\<close>

text \<open>\<open>/^(\+237|237)?[6][0-9]{8,9}$/\<close>\<close>

definition phoneRegex :: regex where
  "phoneRegex =
     Seq Bol
    (Seq (Opt (Alt (chars (js ''+237'')) (chars (js ''237''))))
    (Seq (Class [(0x36, 0x36)])
    (Seq (Rep 8 9 (Class [(0x30, 0x39)]))
         Eol)))"

definition cleanPhone :: "FormData \<Rightarrow> jsstring" where
  "cleanPhone form = removeWhiteSpace (FormData.telephone form)"

text \<open>
  \<open>validateForm\<close> returns \<open>false\<close> after showing an error (\<open>Some\<close> of its message) or
  returns \<open>true\<close> (\<open>None\<close>).
\<close>

definition validateForm :: "State \<Rightarrow> error_message option" where
  "validateForm s =
     (if trim (FormData.nom (formData s)) = [] then Some NomManquant
      else if FormData.filiere (formData s) = [] then Some FiliereManquante
      else if FormData.niveau (formData s) = [] then Some NiveauManquant
      else if \<not> regex_test phoneRegex (cleanPhone (formData s)) then Some TelephoneInvalide
      else if list_ex (\<lambda>insc. telephone insc = FormData.telephone (formData s)) (inscriptions s)
        then Some TelephoneDejaInscrit
      else None)"

text \<open>
  The values of the new registration that come from the environment are parameters:
  \<open>newId\<close> is the string built from \<open>Date.now()\<close> and \<open>Math.random()\<close>, and
  \<open>date\<close> and \<open>heure\<close> are the two renderings of \<open>new Date()\<close>.
\<close>

definition newInscription :: "jsstring \<Rightarrow> jsstring \<Rightarrow> jsstring \<Rightarrow> State \<Rightarrow> Inscription" where
  "newInscription newId date heure s =
     \<lparr>id_insc = newId,
      userId = currentUserId s,
      nom = FormData.nom (formData s),
      filiere = FormData.filiere (formData s),
      niveau = FormData.niveau (formData s),
      telephone = FormData.telephone (formData s),
      dateInscription = date,
      heureInscription = heure\<rparr>"

text \<open>
  \<open>handleSubmit\<close> is an \<open>async\<close> function in two halves, with a wait of half a second
  between them. The first half runs when the submit event fires: it validates the form
  and tests the capacity on the state of the render that created the handler, and
  either shows an error and returns (\<open>Some\<close> of the toast) or sets \<open>loading\<close> and
  reaches the \<open>await\<close> (\<open>None\<close>). Nothing in it tests \<open>loading\<close>.
\<close>

definition handleSubmit_begin :: "State \<Rightarrow> toast option \<times> State" where
  "handleSubmit_begin s =
     (case validateForm s of
        Some e \<Rightarrow> (Some (ToastError e), s)
      | None \<Rightarrow>
          if MAX_INSCRIPTIONS \<le> length (inscriptions s)
          then (Some (ToastError MaximumAtteint), s)
          else (None, s\<lparr>loading := True\<rparr>))"

text \<open>
  The second half runs after the wait. The new registration is built from the form and
  the browser identifier that the handler closed over, the state \<open>closure\<close> of the
  render in which the event fired; it is put in front of \<open>prev\<close>, the list of the
  state \<open>s\<close> at the time the handler resumes, and the form and \<open>loading\<close> are reset.
\<close>

definition handleSubmit_resume ::
  "jsstring \<Rightarrow> jsstring \<Rightarrow> jsstring \<Rightarrow> State \<Rightarrow> State \<Rightarrow> toast \<times> State" where
  "handleSubmit_resume newId date heure closure s =
     (ToastSuccess InscriptionReussie,
      s\<lparr>inscriptions := newInscription newId date heure closure # inscriptions s,
        formData := emptyForm,
        loading := False\<rparr>)"

text \<open>
  One call of \<open>handleSubmit\<close> with no other event during its wait: the toast it shows
  and the state it leaves.
\<close>

definition handleSubmit :: "jsstring \<Rightarrow> jsstring \<Rightarrow> jsstring \<Rightarrow> State \<Rightarrow> toast \<times> State" where
  "handleSubmit newId date heure s =
     (case handleSubmit_begin s of
        (Some shown, s') \<Rightarrow> (shown, s')
      | (None, s') \<Rightarrow> handleSubmit_resume newId date heure s s')"

subsection \<open>Editing the form\<close>

text \<open>
  The two inputs are named \<open>nom\<close> and \<open>telephone\<close>, and the two selects call their
  handler with \<open>filiere\<close> and \<open>niveau\<close>: the computed property \<open>[name]\<close> is one of the
  four fields of the form.
\<close>

datatype field = Nom | Filiere | Niveau | Telephone

fun setField :: "field \<Rightarrow> jsstring \<Rightarrow> FormData \<Rightarrow> FormData" where
  "setField Nom v form = form\<lparr>FormData.nom := v\<rparr>"
| "setField Filiere v form = form\<lparr>FormData.filiere := v\<rparr>"
| "setField Niveau v form = form\<lparr>FormData.niveau := v\<rparr>"
| "setField Telephone v form = form\<lparr>FormData.telephone := v\<rparr>"

definition handleInputChange :: "field \<Rightarrow> jsstring \<Rightarrow> State \<Rightarrow> State" where
  "handleInputChange name v s = s\<lparr>formData := setField name v (formData s)\<rparr>"

definition handleSelectChange :: "field \<Rightarrow> jsstring \<Rightarrow> State \<Rightarrow> State" where
  "handleSelectChange name v s = s\<lparr>formData := setField name v (formData s)\<rparr>"

subsection \<open>Deletion\<close>

definition handleDelete :: "jsstring \<Rightarrow> State \<Rightarrow> toast \<times> State" where
  "handleDelete i s =
     (case find (\<lambda>insc. id_insc insc = i) (inscriptions s) of
        None \<Rightarrow> (ToastError InscriptionNonTrouvee, s)
      | Some inscriptionToDelete \<Rightarrow>
          if userId inscriptionToDelete \<noteq> currentUserId s
          then (ToastError SuppressionInterdite, s)
          else (ToastSuccess InscriptionSupprimee,
                s\<lparr>inscriptions := filter (\<lambda>insc. id_insc insc \<noteq> i) (inscriptions s)\<rparr>))"

subsection \<open>The filtered view\<close>

text \<open>
  \<open>String.prototype.toLowerCase\<close> is a builtin of the runtime, defined by the case
  mapping tables of Unicode; it is a parameter of the view. The function below is the
  builtin on strings of ASCII characters, for evaluating the view on such strings.
\<close>

definition toLowerCase_ascii :: "jsstring \<Rightarrow> jsstring" where
  "toLowerCase_ascii s = map (\<lambda>c. if 0x41 \<le> c \<and> c \<le> 0x5A then c + 0x20 else c) s"

text \<open>The predicate given to \<open>inscriptions.filter\<close> in \<open>filteredInscriptions\<close>.\<close>

definition matchInscription :: "(jsstring \<Rightarrow> jsstring) \<Rightarrow> State \<Rightarrow> Inscription \<Rightarrow> bool" where
  "matchInscription toLowerCase s insc =
     (let matchNom =
            (searchNom s = [] \<or>
             includes_str (toLowerCase (nom insc)) (toLowerCase (searchNom s)) \<or>
             includes_str (telephone insc) (searchNom s));
          matchFiliere = (filterFiliere s = [] \<or> filiere insc = filterFiliere s);
          matchNiveau = (filterNiveau s = [] \<or> niveau insc = filterNiveau s)
      in matchNom \<and> matchFiliere \<and> matchNiveau)"

definition filteredInscriptions :: "(jsstring \<Rightarrow> jsstring) \<Rightarrow> State \<Rightarrow> Inscription list" where
  "filteredInscriptions toLowerCase s = filter (matchInscription toLowerCase s) (inscriptions s)"

subsection \<open>Loading the stored list\<close>

text \<open>
  The effect that runs when the component is mounted. \<open>stored\<close> is the value of
  \<open>localStorage.getItem("inscriptions")\<close>, \<open>None\<close> for \<open>null\<close>; \<open>JSON_parse\<close> is the
  builtin, \<open>None\<close> where it throws, and otherwise the array of registrations that the
  source takes its value to be. The result says whether \<open>console.error\<close> was called
  and gives the state after the effect.
\<close>

definition loadEffect ::
  "(jsstring \<Rightarrow> Inscription list option) \<Rightarrow> jsstring option \<Rightarrow> State \<Rightarrow> bool \<times> State" where
  "loadEffect JSON_parse stored s =
     (case stored of
        None \<Rightarrow> (False, s)
      | Some text \<Rightarrow>
          if text = [] then (False, s)
          else (case JSON_parse text of
                  None \<Rightarrow> (True, s)
                | Some parsed \<Rightarrow> (False, s\<lparr>inscriptions := parsed\<rparr>)))"

subsection \<open>Sequences of user actions\<close>

text \<open>
  Events handled one after the other, every submission running to its end before the
  next event.
\<close>

datatype event =
    InputChange field jsstring
  | SelectChange field jsstring
  | Submit jsstring jsstring jsstring
  | Delete jsstring

fun step :: "State \<Rightarrow> event \<Rightarrow> State" where
  "step s (InputChange name v) = handleInputChange name v s"
| "step s (SelectChange name v) = handleSelectChange name v s"
| "step s (Submit newId date heure) = snd (handleSubmit newId date heure s)"
| "step s (Delete i) = snd (handleDelete i s)"

definition run :: "State \<Rightarrow> event list \<Rightarrow> State" where
  "run s events = foldl step s events"

subsection \<open>Events during the wait of a submission\<close>

text \<open>
  The page with its submissions in flight: the current state, and the closures of the
  calls of \<open>handleSubmit\<close> that have reached their \<open>await\<close>, oldest first. A submit
  event runs the first half of the handler on the current state; the timers expire in
  the order in which they were set, and \<open>Resumed\<close> runs the second half of the oldest
  waiting call. The other events are handled as they come.
\<close>

record Page =
  current :: State
  waiting :: "State list"

datatype page_event =
    Typed field jsstring
  | Selected field jsstring
  | Submitted
  | Resumed jsstring jsstring jsstring
  | Deleted jsstring

fun page_step :: "Page \<Rightarrow> page_event \<Rightarrow> Page" where
  "page_step p (Typed name v) = p\<lparr>current := handleInputChange name v (current p)\<rparr>"
| "page_step p (Selected name v) = p\<lparr>current := handleSelectChange name v (current p)\<rparr>"
| "page_step p Submitted =
     (case handleSubmit_begin (current p) of
        (Some shown, s') \<Rightarrow> p\<lparr>current := s'\<rparr>
      | (None, s') \<Rightarrow> p\<lparr>current := s', waiting := waiting p @ [current p]\<rparr>)"
| "page_step p (Resumed newId date heure) =
     (case waiting p of
        [] \<Rightarrow> p
      | closure # others \<Rightarrow>
          \<lparr>current = snd (handleSubmit_resume newId date heure closure (current p)),
           waiting = others\<rparr>)"
| "page_step p (Deleted i) = p\<lparr>current := snd (handleDelete i (current p))\<rparr>"

definition page_run :: "Page \<Rightarrow> page_event list \<Rightarrow> Page" where
  "page_run p events = foldl page_step p events"

definition page :: "State \<Rightarrow> Page" where
  "page s = \<lparr>current = s, waiting = []\<rparr>"

subsection \<open>The data model\<close>

text \<open>
  The characters of a phone number that passes the check of \<open>validateForm\<close>: the
  digits, \<open>+\<close> and white space.
\<close>

definition phoneChar :: "codeunit \<Rightarrow> bool" where
  "phoneChar c \<longleftrightarrow> isWhiteSpace c \<or> isDigit c \<or> c = 0x2B"

text \<open>Every registration of the list has a phone number that passes the check.\<close>

definition validPhones :: "State \<Rightarrow> bool" where
  "validPhones s \<longleftrightarrow>
     list_all (\<lambda>insc. regex_test phoneRegex (removeWhiteSpace (telephone insc)))
       (inscriptions s)"

section \<open>The specification's formulations\<close>

text \<open>
  The checks of a submission in the order the specification gives them, each with the
  message of its failure: a check is \<open>True\<close> when the submission passes it.
\<close>

definition submitChecks :: "State \<Rightarrow> (bool \<times> error_message) list" where
  "submitChecks s =
     [(trim (FormData.nom (formData s)) \<noteq> [], NomManquant),
      (FormData.filiere (formData s) \<noteq> [], FiliereManquante),
      (FormData.niveau (formData s) \<noteq> [], NiveauManquant),
      (regex_test phoneRegex (removeWhiteSpace (FormData.telephone (formData s))),
       TelephoneInvalide),
      (FormData.telephone (formData s) \<notin> telephone ` set (inscriptions s),
       TelephoneDejaInscrit),
      (length (inscriptions s) < MAX_INSCRIPTIONS, MaximumAtteint)]"

fun firstFailure :: "(bool \<times> error_message) list \<Rightarrow> error_message option" where
  "firstFailure [] = None"
| "firstFailure ((ok, e) # checks) = (if ok then firstFailure checks else Some e)"

text \<open>
  A case-insensitive substring match: the search text, in lower case, occurs in the
  field, in lower case.
\<close>

definition matchesIgnoringCase :: "(jsstring \<Rightarrow> jsstring) \<Rightarrow> jsstring \<Rightarrow> jsstring \<Rightarrow> bool" where
  "matchesIgnoringCase toLowerCase search fld \<longleftrightarrow> sublist (toLowerCase search) (toLowerCase fld)"

text \<open>
  The derived view as the specification words it: the search text is matched without
  regard to case against the name or the phone number, and the three filters are
  conjoined.
\<close>

definition specifiedView :: "(jsstring \<Rightarrow> jsstring) \<Rightarrow> State \<Rightarrow> Inscription list" where
  "specifiedView toLowerCase s =
     filter (\<lambda>insc.
        (searchNom s = [] \<or>
         matchesIgnoringCase toLowerCase (searchNom s) (nom insc) \<or>
         matchesIgnoringCase toLowerCase (searchNom s) (telephone insc)) \<and>
        (filterFiliere s \<noteq> [] \<longrightarrow> filiere insc = filterFiliere s) \<and>
        (filterNiveau s \<noteq> [] \<longrightarrow> niveau insc = filterNiveau s))
       (inscriptions s)"

text \<open>
  The same view with the phone number matched as it is written: the search text itself
  occurs in the phone number.
\<close>

definition amendedView :: "(jsstring \<Rightarrow> jsstring) \<Rightarrow> State \<Rightarrow> Inscription list" where
  "amendedView toLowerCase s =
     filter (\<lambda>insc.
        (searchNom s = [] \<or>
         matchesIgnoringCase toLowerCase (searchNom s) (nom insc) \<or>
         sublist (searchNom s) (telephone insc)) \<and>
        (filterFiliere s \<noteq> [] \<longrightarrow> filiere insc = filterFiliere s) \<and>
        (filterNiveau s \<noteq> [] \<longrightarrow> niveau insc = filterNiveau s))
       (inscriptions s)"

section \<open>Example values\<close>

definition exampleForm :: "jsstring \<Rightarrow> FormData" where
  "exampleForm tel =
     \<lparr>FormData.nom = js ''Awa Ngono'', filiere = js ''iw'', niveau = js ''bts1'',
      telephone = tel\<rparr>"

definition exampleInscription :: "jsstring \<Rightarrow> jsstring \<Rightarrow> jsstring \<Rightarrow> Inscription" where
  "exampleInscription i owner tel =
     \<lparr>id_insc = i, userId = owner, nom = js ''Awa Ngono'', filiere = js ''iw'',
      niveau = js ''bts1'', telephone = tel, dateInscription = js ''2 novembre 2026'',
      heureInscription = js ''10:13''\<rparr>"

definition fullState :: State where
  "fullState =
     initialState\<lparr>inscriptions := replicate 50 (exampleInscription (js ''1'') (js ''user-1'') (js ''677123456'')),
       formData := exampleForm (js ''677000000'')\<rparr>"

definition ownState :: State where
  "ownState =
     initialState\<lparr>inscriptions :=
         [exampleInscription (js ''1'') (js ''user-1'') (js ''677123456''),
          exampleInscription (js ''2'') (js ''user-2'') (js ''677000000''),
          exampleInscription (js ''3'') (js ''user-1'') (js ''+237677123456'')],
       formData := exampleForm (js ''677123456''),
       currentUserId := js ''user-1''\<rparr>"

definition fillForm :: "jsstring \<Rightarrow> event list" where
  "fillForm tel =
     [InputChange Nom (js ''Awa Ngono''), SelectChange Filiere (js ''iw''),
      SelectChange Niveau (js ''bts1''), InputChange Telephone tel]"

definition twoSubmissions :: "jsstring \<Rightarrow> jsstring \<Rightarrow> event list" where
  "twoSubmissions tel1 tel2 =
     fillForm tel1 @ [Submit (js ''1'') (js ''2 novembre 2026'') (js ''10:13'')] @
     fillForm tel2 @ [Submit (js ''2'') (js ''2 novembre 2026'') (js ''10:14'')]"

definition searchState :: State where
  "searchState =
     initialState\<lparr>inscriptions := [exampleInscription (js ''1'') (js ''user-1'') (js ''6 BIS'')],
       searchNom := js ''bis''\<rparr>"

definition readyState :: State where
  "readyState = ownState\<lparr>formData := exampleForm (js ''677 123 456'')\<rparr>"

definition trackState :: State where
  "trackState =
     initialState\<lparr>inscriptions :=
         [exampleInscription (js ''1'') (js ''user-1'') (js ''677123456''),
          (exampleInscription (js ''2'') (js ''user-2'') (js ''677000000''))\<lparr>filiere := js ''cmn''\<rparr>,
          exampleInscription (js ''3'') (js ''user-1'') (js ''+237677123456'')],
       filterFiliere := js ''iw''\<rparr>"




definition doubleSubmit :: "page_event list" where
  "doubleSubmit =
     [Submitted, Submitted,
      Resumed (js ''id-a'') (js ''2 novembre 2026'') (js ''10:13''),
      Resumed (js ''id-b'') (js ''2 novembre 2026'') (js ''10:13'')]"

definition spacedState :: State where
  "spacedState =
     initialState\<lparr>inscriptions :=
         [exampleInscription (js ''1'') (js ''user-1'') (js ''677123456''),
          exampleInscription (js ''2'') (js ''user-2'') (js ''677000000'')],
       formData := exampleForm (js ''677 123 456''),
       currentUserId := js ''user-2''\<rparr>"

definition filledState :: State where
  "filledState = initialState\<lparr>formData := exampleForm (js ''677123456'')\<rparr>"

definition digitsState :: State where
  "digitsState =
     initialState\<lparr>inscriptions :=
         [exampleInscription (js ''1'') (js ''user-1'') (js ''677 123 456''),
          exampleInscription (js ''2'') (js ''user-2'') (js ''677000000''),
          exampleInscription (js ''3'') (js ''user-1'') (js ''+237 699 123 456'')],
       searchNom := js ''123''\<rparr>"

section \<open>Evaluation\<close>

lemma repeat_numeral:
  "repeat f m (numeral k) rest =
     concat (map (repeat f (m - 1) (pred_numeral k)) (f rest)) @ (if m = 0 then [rest] else [])"
  by (simp add: numeral_eq_Suc)

lemma handleSubmit_unfold:
  "handleSubmit newId date heure s =
     (case validateForm s of
        Some e \<Rightarrow> (ToastError e, s)
      | None \<Rightarrow>
          if MAX_INSCRIPTIONS \<le> length (inscriptions s) then (ToastError MaximumAtteint, s)
          else (ToastSuccess InscriptionReussie,
                s\<lparr>inscriptions := newInscription newId date heure s # inscriptions s,
                  formData := emptyForm,
                  loading := False\<rparr>))"
  by (simp add: handleSubmit_def handleSubmit_begin_def handleSubmit_resume_def
        split: option.splits)

section \<open>What the matcher computes\<close>

text \<open>
  The remainders that the matcher returns, construct by construct, and from them the
  strings that \<open>phoneRegex\<close> accepts: an optional \<open>+237\<close> or \<open>237\<close>, the digit
  \<open>6\<close>, then eight or nine digits, and nothing else.
\<close>


lemma rmatch_Chr: "xs \<in> set (rmatch (Chr c) input rest) \<longleftrightarrow> rest = c # xs"
  by (cases rest) auto

lemma rmatch_Class:
  "xs \<in> set (rmatch (Class ranges) input rest) \<longleftrightarrow>
     (\<exists>x. rest = x # xs \<and> list_ex (\<lambda>(lo, hi). lo \<le> x \<and> x \<le> hi) ranges)"
  by (cases rest) auto

lemma rmatch_Seq:
  "xs \<in> set (rmatch (Seq a b) input rest) \<longleftrightarrow>
     (\<exists>mid\<in>set (rmatch a input rest). xs \<in> set (rmatch b input mid))"
  by auto

lemma rmatch_chars: "xs \<in> set (rmatch (chars cs) input rest) \<longleftrightarrow> rest = cs @ xs"
  by (induction cs arbitrary: rest rule: chars.induct) (auto simp: rmatch_Chr)

lemma repeat_single:
  assumes f: "\<And>ys r. ys \<in> set (f r) \<longleftrightarrow> (\<exists>x. r = x # ys \<and> ok x)"
  shows "xs \<in> set (repeat f m n rest) \<longleftrightarrow>
     (\<exists>d. rest = d @ xs \<and> m \<le> length d \<and> length d \<le> n \<and> (\<forall>x\<in>set d. ok x))"
proof (induction n arbitrary: m rest)
  case 0
  then show ?case by auto
next
  case (Suc n)
  show ?case (is "?lhs \<longleftrightarrow> ?rhs")
  proof
    assume ?lhs
    then consider
      (more) x mid where "rest = x # mid" "ok x" "xs \<in> set (repeat f (m - 1) n mid)"
      | (stop) "m = 0" "xs = rest"
      by (auto simp: f split: if_splits)
    then show ?rhs
    proof cases
      case more
      from more(3) obtain d where d: "mid = d @ xs" "m - 1 \<le> length d" "length d \<le> n"
          "\<forall>x\<in>set d. ok x"
        unfolding Suc.IH by blast
      with more(1,2) have "rest = (x # d) @ xs \<and> m \<le> length (x # d) \<and>
          length (x # d) \<le> Suc n \<and> (\<forall>x\<in>set (x # d). ok x)"
        by auto
      then show ?thesis by blast
    next
      case stop
      then have "rest = [] @ xs \<and> m \<le> length ([] :: jsstring) \<and>
          length ([] :: jsstring) \<le> Suc n \<and> (\<forall>x\<in>set ([] :: jsstring). ok x)"
        by simp
      then show ?thesis by blast
    qed
  next
    assume ?rhs
    then obtain d where d: "rest = d @ xs" "m \<le> length d" "length d \<le> Suc n" "\<forall>x\<in>set d. ok x"
      by blast
    show ?lhs
    proof (cases d)
      case Nil
      with d show ?thesis by simp
    next
      case (Cons x d')
      with d have "xs \<in> set (repeat f (m - 1) n (d' @ xs))"
        unfolding Suc.IH by auto
      with Cons d show ?thesis by (auto simp: f)
    qed
  qed
qed

lemma rmatch_digits:
  "xs \<in> set (rmatch (Rep m n (Class [(0x30, 0x39)])) input rest) \<longleftrightarrow>
     (\<exists>d. rest = d @ xs \<and> m \<le> length d \<and> length d \<le> n \<and> (\<forall>x\<in>set d. isDigit x))"
proof -
  have "\<And>ys r. ys \<in> set (rmatch (Class [(0x30, 0x39)]) input r) \<longleftrightarrow>
      (\<exists>x. r = x # ys \<and> isDigit x)"
    by (simp only: rmatch_Class) (simp add: isDigit_def)
  from repeat_single [of "rmatch (Class [(0x30, 0x39)]) input" isDigit, OF this]
  show ?thesis by (simp only: rmatch.simps)
qed

lemma rmatch_Bol: "xs \<in> set (rmatch Bol input rest) \<longleftrightarrow> length rest = length input \<and> xs = rest"
  by auto

lemma rmatch_Eol: "xs \<in> set (rmatch Eol input rest) \<longleftrightarrow> rest = [] \<and> xs = []"
  by auto

lemma rmatch_Opt:
  "xs \<in> set (rmatch (Opt a) input rest) \<longleftrightarrow> xs \<in> set (rmatch a input rest) \<or> xs = rest"
  by auto

lemma rmatch_Alt:
  "xs \<in> set (rmatch (Alt a b) input rest) \<longleftrightarrow>
     xs \<in> set (rmatch a input rest) \<or> xs \<in> set (rmatch b input rest)"
  by auto

lemma rmatch_six: "xs \<in> set (rmatch (Class [(0x36, 0x36)]) input rest) \<longleftrightarrow> rest = 0x36 # xs"
  by (simp only: rmatch_Class) auto

lemma rmatch_tail:
  "xs \<in> set (rmatch (Seq (Rep 8 9 (Class [(0x30, 0x39)])) Eol) input rest) \<longleftrightarrow>
     xs = [] \<and> 8 \<le> length rest \<and> length rest \<le> 9 \<and> (\<forall>x\<in>set rest. isDigit x)"
  by (simp only: rmatch_Seq Bex_def rmatch_digits rmatch_Eol) auto

lemma rmatch_number:
  "xs \<in> set (rmatch (Seq (Class [(0x36, 0x36)])
                    (Seq (Rep 8 9 (Class [(0x30, 0x39)])) Eol)) input rest) \<longleftrightarrow>
     xs = [] \<and>
     (\<exists>d. rest = 0x36 # d \<and> 8 \<le> length d \<and> length d \<le> 9 \<and> (\<forall>x\<in>set d. isDigit x))"
  by (simp only: rmatch_Seq [of _ "Class _"] Bex_def rmatch_six rmatch_tail) auto

lemma rmatch_prefix:
  "mid \<in> set (rmatch (Opt (Alt (chars a) (chars b))) input rest) \<longleftrightarrow>
     rest = a @ mid \<or> rest = b @ mid \<or> rest = [] @ mid"
  by (simp only: rmatch_Opt rmatch_Alt rmatch_chars) auto

lemma rmatch_shape:
  "xs \<in> set (rmatch (Seq Bol (Seq (Opt (Alt (chars a) (chars b)))
                    (Seq (Class [(0x36, 0x36)])
                    (Seq (Rep 8 9 (Class [(0x30, 0x39)])) Eol)))) input rest) \<longleftrightarrow>
     xs = [] \<and> length rest = length input \<and>
     (\<exists>p d. rest = p @ 0x36 # d \<and> (p = a \<or> p = b \<or> p = []) \<and>
        8 \<le> length d \<and> length d \<le> 9 \<and> (\<forall>x\<in>set d. isDigit x))"
  by (simp only: rmatch_Seq [of _ Bol] rmatch_Seq [of _ "Opt _"] Bex_def rmatch_Bol
        rmatch_prefix rmatch_number) blast

lemma suffix_same_length: "suffix xs ys \<Longrightarrow> length xs = length ys \<Longrightarrow> xs = ys"
  by (auto simp: suffix_def)

lemma phoneRegex_language:
  "regex_test phoneRegex input \<longleftrightarrow>
     (\<exists>p d. input = p @ 0x36 # d \<and> (p = js ''+237'' \<or> p = js ''237'' \<or> p = []) \<and>
        8 \<le> length d \<and> length d \<le> 9 \<and> (\<forall>x\<in>set d. isDigit x))"
  (is "_ \<longleftrightarrow> ?shape input")
proof -
  have at: "matches_at phoneRegex input start \<longleftrightarrow>
      length start = length input \<and> ?shape start" for start
  proof -
    have "matches_at phoneRegex input start \<longleftrightarrow>
        (\<exists>xs. xs \<in> set (rmatch phoneRegex input start))"
      unfolding matches_at_def by (cases "rmatch phoneRegex input start") auto
    also have "\<dots> \<longleftrightarrow> length start = length input \<and> ?shape start"
      unfolding phoneRegex_def by (simp only: rmatch_shape) blast
    finally show ?thesis .
  qed
  show ?thesis
  proof
    assume "regex_test phoneRegex input"
    then obtain start where start: "suffix start input" "matches_at phoneRegex input start"
      unfolding regex_test_def list_ex_iff by auto
    from start(2) have found: "length start = length input \<and> ?shape start"
      by (simp only: at)
    from start(1) found [THEN conjunct1] have whole: "start = input"
      by (rule suffix_same_length)
    from found [THEN conjunct2] show "?shape input"
      unfolding whole .
  next
    assume "?shape input"
    then have "matches_at phoneRegex input input" by (simp only: at)
    then show "regex_test phoneRegex input"
      unfolding regex_test_def list_ex_iff by auto
  qed
qed

section \<open>The phone number format\<close>

text \<open>
  C4. The phone check of \<open>validateForm\<close>, the regular expression
  \<open>^(\+237|237)?[6][0-9]{8,9}$\<close> tested on the input with its white space removed,
  accepts \<open>+237677123456\<close> and \<open>677123456\<close> and rejects \<open>123456789\<close>.
\<close>

theorem phoneRegex_examples:
  "regex_test phoneRegex (removeWhiteSpace (js ''+237677123456'')) \<and>
   regex_test phoneRegex (removeWhiteSpace (js ''677123456'')) \<and>
   \<not> regex_test phoneRegex (removeWhiteSpace (js ''123456789''))"
  by (simp add: regex_test_def matches_at_def phoneRegex_def removeWhiteSpace_def
      isWhiteSpace_def js_def repeat_numeral)

section \<open>Submission\<close>

lemma list_ex_telephone:
  "list_ex (\<lambda>insc. telephone insc = t) xs \<longleftrightarrow> t \<in> telephone ` set xs"
  by (auto simp: list_ex_iff)

text \<open>
  A submit event followed at once by the end of its wait is one uninterrupted call of
  \<open>handleSubmit\<close>.
\<close>

lemma page_step_uninterrupted:
  "page_step (page_step (page s) Submitted) (Resumed newId date heure) =
   page (step s (Submit newId date heure))"
  by (simp add: page_def handleSubmit_def split: prod.splits option.splits)

text \<open>
  With at least \<open>MAX_INSCRIPTIONS\<close> = 50 registrations in the list, the handler shows an
  error and leaves the state, hence the list, as it was.
\<close>

lemma handleSubmit_full:
  "MAX_INSCRIPTIONS \<le> length (inscriptions s) \<Longrightarrow>
   \<exists>e. handleSubmit newId date heure s = (ToastError e, s)"
  by (simp add: handleSubmit_unfold split: option.splits)


text \<open>
  When the phone number of the form is, as a string, the phone number of a registration
  of the list, the handler shows an error and leaves the state as it was.
\<close>

lemma handleSubmit_duplicate:
  assumes "FormData.telephone (formData s) \<in> telephone ` set (inscriptions s)"
  shows "\<exists>e. handleSubmit newId date heure s = (ToastError e, s)"
  using assms
  by (simp add: handleSubmit_unfold validateForm_def list_ex_telephone split: option.splits)

text \<open>
  C2. The rejection holds for a phone number typed exactly as it is stored
  (\<open>handleSubmit_duplicate\<close>), and phone numbers do not remain unique. The check for
  duplicates compares the input as typed, not the input without white space that the
  format check uses: with \<open>677123456\<close> in the list, the form with \<open>677 123 456\<close> is
  accepted and the list then holds the number 677123456 twice. And the check is made
  before the wait of the handler: from the empty list, two submit events for one form,
  the second during the wait of the first, store the string \<open>677123456\<close> twice.
\<close>

theorem duplicate_number_accepted:
  "fst (handleSubmit (js ''3'') (js ''2 novembre 2026'') (js ''10:13'') spacedState) =
     ToastSuccess InscriptionReussie \<and>
   map (\<lambda>insc. removeWhiteSpace (telephone insc))
     (inscriptions
       (snd (handleSubmit (js ''3'') (js ''2 novembre 2026'') (js ''10:13'') spacedState))) =
     [js ''677123456'', js ''677123456'', js ''677000000''] \<and>
   map telephone (inscriptions (current (page_run (page filledState) doubleSubmit))) =
     [js ''677123456'', js ''677123456'']"
proof (intro conjI)
  have accepted: "handleSubmit (js ''3'') (js ''2 novembre 2026'') (js ''10:13'') spacedState =
      (ToastSuccess InscriptionReussie,
       spacedState\<lparr>inscriptions :=
           newInscription (js ''3'') (js ''2 novembre 2026'') (js ''10:13'') spacedState #
           inscriptions spacedState,
         formData := emptyForm, loading := False\<rparr>)"
    by (simp add: handleSubmit_unfold validateForm_def cleanPhone_def trim_def
          MAX_INSCRIPTIONS_def spacedState_def initialState_def exampleForm_def
          exampleInscription_def regex_test_def matches_at_def phoneRegex_def
          removeWhiteSpace_def isWhiteSpace_def js_def repeat_numeral)
  from accepted
  show "fst (handleSubmit (js ''3'') (js ''2 novembre 2026'') (js ''10:13'') spacedState) =
      ToastSuccess InscriptionReussie"
    by simp
  from accepted
  show "map (\<lambda>insc. removeWhiteSpace (telephone insc))
      (inscriptions
        (snd (handleSubmit (js ''3'') (js ''2 novembre 2026'') (js ''10:13'') spacedState))) =
      [js ''677123456'', js ''677123456'', js ''677000000'']"
    by (simp add: newInscription_def spacedState_def initialState_def exampleForm_def
          exampleInscription_def removeWhiteSpace_def isWhiteSpace_def js_def)
  show "map telephone (inscriptions (current (page_run (page filledState) doubleSubmit))) =
      [js ''677123456'', js ''677123456'']"
    by (simp add: page_run_def page_def doubleSubmit_def filledState_def
          handleSubmit_begin_def handleSubmit_resume_def newInscription_def
          validateForm_def cleanPhone_def trim_def MAX_INSCRIPTIONS_def initialState_def
          emptyForm_def exampleForm_def regex_test_def matches_at_def phoneRegex_def
          removeWhiteSpace_def isWhiteSpace_def js_def repeat_numeral)
qed

text \<open>
  C6. When the list holds fewer than 50 registrations and \<open>validateForm\<close> accepts the
  form, \<open>handleSubmit\<close> reports success and the new list is the new registration
  followed by the old list: one entry more, every old entry one place further. The four
  fields of the form are the empty string afterwards.
\<close>

theorem handleSubmit_success:
  assumes room: "length (inscriptions s) < MAX_INSCRIPTIONS"
    and valid: "validateForm s = None"
  shows "fst (handleSubmit newId date heure s) = ToastSuccess InscriptionReussie \<and>
         inscriptions (snd (handleSubmit newId date heure s)) =
           newInscription newId date heure s # inscriptions s \<and>
         length (inscriptions (snd (handleSubmit newId date heure s))) =
           length (inscriptions s) + 1 \<and>
         (\<forall>k<length (inscriptions s).
            inscriptions (snd (handleSubmit newId date heure s)) ! (k + 1) = inscriptions s ! k) \<and>
         FormData.nom (formData (snd (handleSubmit newId date heure s))) = [] \<and>
         FormData.filiere (formData (snd (handleSubmit newId date heure s))) = [] \<and>
         FormData.niveau (formData (snd (handleSubmit newId date heure s))) = [] \<and>
         FormData.telephone (formData (snd (handleSubmit newId date heure s))) = []"
proof -
  from room valid have
    "handleSubmit newId date heure s =
       (ToastSuccess InscriptionReussie,
        s\<lparr>inscriptions := newInscription newId date heure s # inscriptions s,
          formData := emptyForm, loading := False\<rparr>)"
    by (simp add: handleSubmit_unfold)
  then show ?thesis by (simp add: emptyForm_def)
qed

theorem handleSubmit_success_witness:
  "length (inscriptions readyState) < MAX_INSCRIPTIONS \<and>
   validateForm readyState = None \<and>
   fst (handleSubmit (js ''4'') [] [] readyState) = ToastSuccess InscriptionReussie \<and>
   inscriptions (snd (handleSubmit (js ''4'') [] [] readyState)) =
     newInscription (js ''4'') [] [] readyState # inscriptions readyState \<and>
   inscriptions (snd (handleSubmit (js ''4'') [] [] readyState)) ! (0 + 1) =
     inscriptions readyState ! 0 \<and>
   FormData.telephone (formData (snd (handleSubmit (js ''4'') [] [] readyState))) = []"
proof -
  have room: "length (inscriptions readyState) < MAX_INSCRIPTIONS"
    by (simp add: readyState_def ownState_def initialState_def MAX_INSCRIPTIONS_def)
  have valid: "validateForm readyState = None"
    by (simp add: readyState_def ownState_def initialState_def emptyForm_def exampleForm_def exampleInscription_def
          handleSubmit_unfold validateForm_def cleanPhone_def newInscription_def trim_def
          MAX_INSCRIPTIONS_def
          regex_test_def matches_at_def phoneRegex_def removeWhiteSpace_def
          isWhiteSpace_def js_def repeat_numeral)
  have pos: "0 < length (inscriptions readyState)"
    by (simp add: readyState_def ownState_def initialState_def)
  from room valid pos handleSubmit_success [OF room valid, of "js ''4''" "[]" "[]"]
  show ?thesis by blast
qed

lemma handleSubmit_checks:
  "handleSubmit newId date heure s =
     (case firstFailure (submitChecks s) of
        Some e \<Rightarrow> (ToastError e, s)
      | None \<Rightarrow> (ToastSuccess InscriptionReussie,
                 s\<lparr>inscriptions := newInscription newId date heure s # inscriptions s,
                   formData := emptyForm, loading := False\<rparr>))"
  by (simp add: handleSubmit_unfold validateForm_def submitChecks_def cleanPhone_def
        list_ex_telephone not_less)

text \<open>
  C7. \<open>handleSubmit\<close> shows the message of the first check that fails, the checks taken
  in the order: name not empty once trimmed, track selected, level selected, phone
  format on the input without white space, phone not yet in the list, list below its
  capacity. It then leaves the state as it was; it reports success when no check fails.
  Whenever it shows an error, the list and the form are unchanged.
\<close>

theorem handleSubmit_check_order:
  "(firstFailure (submitChecks s) = Some e \<longrightarrow>
      handleSubmit newId date heure s = (ToastError e, s)) \<and>
   (firstFailure (submitChecks s) = None \<longrightarrow>
      fst (handleSubmit newId date heure s) = ToastSuccess InscriptionReussie) \<and>
   (fst (handleSubmit newId date heure s) = ToastError e' \<longrightarrow>
      inscriptions (snd (handleSubmit newId date heure s)) = inscriptions s \<and>
      formData (snd (handleSubmit newId date heure s)) = formData s)"
  by (simp add: handleSubmit_checks split: option.splits)

theorem handleSubmit_check_order_witness:
  "firstFailure (submitChecks initialState) = Some NomManquant \<and>
   handleSubmit (js ''1'') [] [] initialState = (ToastError NomManquant, initialState) \<and>
   firstFailure (submitChecks ownState) = Some TelephoneDejaInscrit \<and>
   handleSubmit (js ''4'') [] [] ownState = (ToastError TelephoneDejaInscrit, ownState) \<and>
   firstFailure (submitChecks fullState) = Some MaximumAtteint \<and>
   handleSubmit (js ''51'') [] [] fullState = (ToastError MaximumAtteint, fullState) \<and>
   firstFailure (submitChecks readyState) = None \<and>
   fst (handleSubmit (js ''4'') [] [] readyState) = ToastSuccess InscriptionReussie \<and>
   formData (snd (handleSubmit (js ''4'') [] [] ownState)) = formData ownState"
proof -
  have a: "firstFailure (submitChecks initialState) = Some NomManquant"
    by (simp add: submitChecks_def initialState_def emptyForm_def trim_def)
  have b: "firstFailure (submitChecks ownState) = Some TelephoneDejaInscrit"
    by (simp add: submitChecks_def ownState_def initialState_def emptyForm_def exampleForm_def exampleInscription_def
          handleSubmit_unfold validateForm_def cleanPhone_def newInscription_def trim_def
          MAX_INSCRIPTIONS_def
          regex_test_def matches_at_def phoneRegex_def removeWhiteSpace_def
          isWhiteSpace_def js_def repeat_numeral)
  have c: "firstFailure (submitChecks fullState) = Some MaximumAtteint"
    by (simp add: submitChecks_def fullState_def initialState_def emptyForm_def exampleForm_def exampleInscription_def
          handleSubmit_unfold validateForm_def cleanPhone_def newInscription_def trim_def
          MAX_INSCRIPTIONS_def
          regex_test_def matches_at_def phoneRegex_def removeWhiteSpace_def
          isWhiteSpace_def js_def repeat_numeral)
  have d: "firstFailure (submitChecks readyState) = None"
    by (simp add: submitChecks_def readyState_def ownState_def initialState_def emptyForm_def exampleForm_def exampleInscription_def
          handleSubmit_unfold validateForm_def cleanPhone_def newInscription_def trim_def
          MAX_INSCRIPTIONS_def
          regex_test_def matches_at_def phoneRegex_def removeWhiteSpace_def
          isWhiteSpace_def js_def repeat_numeral)
  from a b c d
    handleSubmit_check_order [of initialState NomManquant "js ''1''" "[]" "[]" NomManquant]
    handleSubmit_check_order [of ownState TelephoneDejaInscrit "js ''4''" "[]" "[]"
      TelephoneDejaInscrit]
    handleSubmit_check_order [of fullState MaximumAtteint "js ''51''" "[]" "[]" MaximumAtteint]
    handleSubmit_check_order [of readyState NomManquant "js ''4''" "[]" "[]" NomManquant]
  show ?thesis by simp
qed

text \<open>
  C10. The phone number stored in a new registration is the phone number of the form as
  it was typed, and a submission is rejected as a duplicate only when that same string
  is the phone number of a registration of the list; the string without white space
  serves the format check alone. So there are two phone inputs, different as strings
  and equal once white space is removed, that are both accepted, one after the other,
  starting from the empty list.
\<close>

theorem raw_phone_stored:
  "(fst (handleSubmit newId date heure s) = ToastSuccess InscriptionReussie \<longrightarrow>
      telephone (hd (inscriptions (snd (handleSubmit newId date heure s)))) =
        FormData.telephone (formData s)) \<and>
   (fst (handleSubmit newId date heure s) = ToastError TelephoneDejaInscrit \<longrightarrow>
      FormData.telephone (formData s) \<in> telephone ` set (inscriptions s)) \<and>
   (\<exists>tel1 tel2.
      tel1 \<noteq> tel2 \<and> removeWhiteSpace tel1 = removeWhiteSpace tel2 \<and>
      map telephone (inscriptions (run initialState (twoSubmissions tel1 tel2))) =
        [tel2, tel1])"
proof (intro conjI impI)
  assume "fst (handleSubmit newId date heure s) = ToastSuccess InscriptionReussie"
  then show "telephone (hd (inscriptions (snd (handleSubmit newId date heure s)))) =
        FormData.telephone (formData s)"
    by (simp add: handleSubmit_unfold newInscription_def split: option.splits if_splits)
next
  assume "fst (handleSubmit newId date heure s) = ToastError TelephoneDejaInscrit"
  then show "FormData.telephone (formData s) \<in> telephone ` set (inscriptions s)"
    by (simp add: handleSubmit_unfold validateForm_def list_ex_telephone
          split: option.splits if_splits)
next
  show "\<exists>tel1 tel2.
      tel1 \<noteq> tel2 \<and> removeWhiteSpace tel1 = removeWhiteSpace tel2 \<and>
      map telephone (inscriptions (run initialState (twoSubmissions tel1 tel2))) =
        [tel2, tel1]"
  proof (intro exI conjI)
    show "js ''677123456'' \<noteq> js ''677 123 456''"
      by (simp add: js_def)
    show "removeWhiteSpace (js ''677123456'') = removeWhiteSpace (js ''677 123 456'')"
      by (simp add: removeWhiteSpace_def isWhiteSpace_def js_def)
    show "map telephone (inscriptions
        (run initialState (twoSubmissions (js ''677123456'') (js ''677 123 456'')))) =
      [js ''677 123 456'', js ''677123456'']"
      by (simp add: run_def twoSubmissions_def fillForm_def handleInputChange_def
          handleSelectChange_def initialState_def emptyForm_def exampleForm_def exampleInscription_def
          handleSubmit_unfold validateForm_def cleanPhone_def newInscription_def trim_def
          MAX_INSCRIPTIONS_def
          regex_test_def matches_at_def phoneRegex_def removeWhiteSpace_def
          isWhiteSpace_def js_def repeat_numeral)
  qed
qed

theorem raw_phone_stored_witness:
  "fst (handleSubmit (js ''4'') [] [] readyState) = ToastSuccess InscriptionReussie \<and>
   telephone (hd (inscriptions (snd (handleSubmit (js ''4'') [] [] readyState)))) =
     js ''677 123 456'' \<and>
   fst (handleSubmit (js ''4'') [] [] ownState) = ToastError TelephoneDejaInscrit \<and>
   FormData.telephone (formData ownState) \<in> telephone ` set (inscriptions ownState)"
proof -
  have ok: "fst (handleSubmit (js ''4'') [] [] readyState) = ToastSuccess InscriptionReussie"
    by (simp add: readyState_def ownState_def initialState_def emptyForm_def exampleForm_def exampleInscription_def
          handleSubmit_unfold validateForm_def cleanPhone_def newInscription_def trim_def
          MAX_INSCRIPTIONS_def
          regex_test_def matches_at_def phoneRegex_def removeWhiteSpace_def
          isWhiteSpace_def js_def repeat_numeral)
  have dup: "fst (handleSubmit (js ''4'') [] [] ownState) = ToastError TelephoneDejaInscrit"
    by (simp add: ownState_def initialState_def emptyForm_def exampleForm_def exampleInscription_def
          handleSubmit_unfold validateForm_def cleanPhone_def newInscription_def trim_def
          MAX_INSCRIPTIONS_def
          regex_test_def matches_at_def phoneRegex_def removeWhiteSpace_def
          isWhiteSpace_def js_def repeat_numeral)
  have tel: "FormData.telephone (formData readyState) = js ''677 123 456''"
    by (simp add: readyState_def exampleForm_def)
  from ok dup tel
    raw_phone_stored [of "js ''4''" "[]" "[]" readyState]
    raw_phone_stored [of "js ''4''" "[]" "[]" ownState]
  show ?thesis by simp
qed

section \<open>Deletion\<close>

lemma find_first:
  assumes "\<forall>x\<in>set pre. \<not> P x" and "P r"
  shows "find P (pre @ r # post) = Some r"
  using assms by (induction pre) simp_all

lemma filter_first:
  assumes "\<forall>x\<in>set pre. P x"
  shows "filter P (pre @ post) = pre @ filter P post"
  using assms by (induction pre) simp_all

text \<open>
  C3. When no registration of the list has the identifier \<open>i\<close>, \<open>handleDelete\<close> shows
  an error and leaves the state as it was. Otherwise let \<open>r\<close> be the registration with
  the identifier \<open>i\<close>, the first one should several have it, with \<open>pre\<close> before it and
  \<open>post\<close> after it. When the owner of \<open>r\<close> is not the current browser identifier,
  \<open>handleDelete\<close> shows an error and leaves the state as it was. When it is,
  \<open>handleDelete\<close> reports success and the new list is the old one without the
  registrations that have the identifier \<open>i\<close>, the others as they were and in their
  order; where \<open>r\<close> is the only registration with this identifier, the new list is
  \<open>pre\<close> followed by \<open>post\<close>.
\<close>

theorem handleDelete_cases:
  "((\<forall>r\<in>set (inscriptions s). id_insc r \<noteq> i) \<longrightarrow>
      handleDelete i s = (ToastError InscriptionNonTrouvee, s)) \<and>
   (inscriptions s = pre @ r # post \<and> id_insc r = i \<and> (\<forall>x\<in>set pre. id_insc x \<noteq> i) \<longrightarrow>
      (userId r \<noteq> currentUserId s \<longrightarrow>
         handleDelete i s = (ToastError SuppressionInterdite, s)) \<and>
      (userId r = currentUserId s \<longrightarrow>
         handleDelete i s =
           (ToastSuccess InscriptionSupprimee,
            s\<lparr>inscriptions := pre @ filter (\<lambda>x. id_insc x \<noteq> i) post\<rparr>) \<and>
         ((\<forall>x\<in>set post. id_insc x \<noteq> i) \<longrightarrow>
            inscriptions (snd (handleDelete i s)) = pre @ post)))"
proof (intro conjI impI)
  assume "\<forall>r\<in>set (inscriptions s). id_insc r \<noteq> i"
  then have "find (\<lambda>insc. id_insc insc = i) (inscriptions s) = None"
    by (simp add: find_None_iff)
  then show "handleDelete i s = (ToastError InscriptionNonTrouvee, s)"
    by (simp add: handleDelete_def)
next
  assume a: "inscriptions s = pre @ r # post \<and> id_insc r = i \<and> (\<forall>x\<in>set pre. id_insc x \<noteq> i)"
  then have f: "find (\<lambda>insc. id_insc insc = i) (inscriptions s) = Some r"
    by (simp add: find_first)
  from a have g: "filter (\<lambda>x. id_insc x \<noteq> i) (inscriptions s) =
      pre @ filter (\<lambda>x. id_insc x \<noteq> i) post"
    by (simp add: filter_first)
  { assume "userId r \<noteq> currentUserId s"
    with f show "handleDelete i s = (ToastError SuppressionInterdite, s)"
      by (simp add: handleDelete_def) }
  { assume own: "userId r = currentUserId s"
    with f g show d: "handleDelete i s =
           (ToastSuccess InscriptionSupprimee,
            s\<lparr>inscriptions := pre @ filter (\<lambda>x. id_insc x \<noteq> i) post\<rparr>)"
      by (simp add: handleDelete_def)
    assume "\<forall>x\<in>set post. id_insc x \<noteq> i"
    then have "filter (\<lambda>x. id_insc x \<noteq> i) post = post" by simp
    with d show "inscriptions (snd (handleDelete i s)) = pre @ post" by simp }
qed

theorem handleDelete_cases_witness:
  "js ''9'' \<notin> id_insc ` set (inscriptions ownState) \<and>
   handleDelete (js ''9'') ownState = (ToastError InscriptionNonTrouvee, ownState) \<and>
   userId (exampleInscription (js ''2'') (js ''user-2'') (js ''677000000'')) \<noteq>
     currentUserId ownState \<and>
   handleDelete (js ''2'') ownState = (ToastError SuppressionInterdite, ownState) \<and>
   userId (exampleInscription (js ''1'') (js ''user-1'') (js ''677123456'')) =
     currentUserId ownState \<and>
   inscriptions (snd (handleDelete (js ''1'') ownState)) =
     [exampleInscription (js ''2'') (js ''user-2'') (js ''677000000''),
      exampleInscription (js ''3'') (js ''user-1'') (js ''+237677123456'')]"
proof -
  let ?e1 = "exampleInscription (js ''1'') (js ''user-1'') (js ''677123456'')"
  let ?e2 = "exampleInscription (js ''2'') (js ''user-2'') (js ''677000000'')"
  let ?e3 = "exampleInscription (js ''3'') (js ''user-1'') (js ''+237677123456'')"
  have none: "\<forall>r\<in>set (inscriptions ownState). id_insc r \<noteq> js ''9''"
    by (simp add: ownState_def initialState_def exampleInscription_def js_def)
  have two: "inscriptions ownState = [?e1] @ ?e2 # [?e3] \<and> id_insc ?e2 = js ''2'' \<and>
      (\<forall>x\<in>set [?e1]. id_insc x \<noteq> js ''2'')"
    by (simp add: ownState_def initialState_def exampleInscription_def js_def)
  have other: "userId ?e2 \<noteq> currentUserId ownState"
    by (simp add: ownState_def initialState_def exampleInscription_def js_def)
  have one: "inscriptions ownState = [] @ ?e1 # [?e2, ?e3] \<and> id_insc ?e1 = js ''1'' \<and>
      (\<forall>x\<in>set []. id_insc x \<noteq> js ''1'')"
    by (simp add: ownState_def initialState_def exampleInscription_def js_def)
  have own: "userId ?e1 = currentUserId ownState"
    by (simp add: ownState_def initialState_def exampleInscription_def js_def)
  have rest: "\<forall>x\<in>set [?e2, ?e3]. id_insc x \<noteq> js ''1''"
    by (simp add: exampleInscription_def js_def)
  have absent: "js ''9'' \<notin> id_insc ` set (inscriptions ownState)"
    by (simp add: ownState_def initialState_def exampleInscription_def js_def)
  from absent none two other one own rest
    handleDelete_cases [of ownState "js ''9''" "[]" ?e1 "[]"]
    handleDelete_cases [of ownState "js ''2''" "[?e1]" ?e2 "[?e3]"]
    handleDelete_cases [of ownState "js ''1''" "[]" ?e1 "[?e2, ?e3]"]
  show ?thesis by simp
qed

section \<open>Loading the stored list\<close>

text \<open>
  C8. When the stored entry is absent, or is a text that \<open>JSON.parse\<close> rejects, the
  loading effect leaves the state as it was: run on the initial state, it leaves the
  list empty. The effect ends normally in both cases; it calls \<open>console.error\<close>
  exactly when a stored text, not the empty one, was rejected.
\<close>

theorem loadEffect_failure:
  assumes "stored = None \<or> (\<exists>text. stored = Some text \<and> JSON_parse text = None)"
  shows "snd (loadEffect JSON_parse stored s) = s \<and>
         inscriptions (snd (loadEffect JSON_parse stored initialState)) = [] \<and>
         (fst (loadEffect JSON_parse stored s) \<longleftrightarrow> stored \<noteq> None \<and> stored \<noteq> Some [])"
  using assms by (auto simp: loadEffect_def initialState_def split: option.splits)

theorem loadEffect_failure_witness:
  "snd (loadEffect (\<lambda>text. None) None initialState) = initialState \<and>
   inscriptions (snd (loadEffect (\<lambda>text. None) None initialState)) = [] \<and>
   \<not> fst (loadEffect (\<lambda>text. None) None initialState) \<and>
   snd (loadEffect (\<lambda>text. None) (Some (js ''[{'')) initialState) = initialState \<and>
   inscriptions (snd (loadEffect (\<lambda>text. None) (Some (js ''[{'')) initialState)) = [] \<and>
   fst (loadEffect (\<lambda>text. None) (Some (js ''[{'')) initialState)"
proof -
  have absent: "(None :: jsstring option) = None \<or>
      (\<exists>text. None = Some text \<and> (\<lambda>text. None :: Inscription list option) text = None)"
    by simp
  have broken: "Some (js ''[{'') = None \<or>
      (\<exists>text. Some (js ''[{'') = Some text \<and> (\<lambda>text. None :: Inscription list option) text = None)"
    by simp
  have nonempty: "Some (js ''[{'') \<noteq> Some []"
    by (simp add: js_def)
  from nonempty
    loadEffect_failure [OF absent, of initialState]
    loadEffect_failure [OF broken, of initialState]
  show ?thesis by (simp add: initialState_def)
qed

section \<open>The filtered view\<close>

lemma includes_str_sublist: "includes_str hay needle \<longleftrightarrow> sublist needle hay"
  by (induction hay) (simp_all add: sublist_Cons_right)

lemma matchInscription_amended:
  "matchInscription toLowerCase s insc \<longleftrightarrow>
     (searchNom s = [] \<or>
      matchesIgnoringCase toLowerCase (searchNom s) (nom insc) \<or>
      sublist (searchNom s) (telephone insc)) \<and>
     (filterFiliere s \<noteq> [] \<longrightarrow> filiere insc = filterFiliere s) \<and>
     (filterNiveau s \<noteq> [] \<longrightarrow> niveau insc = filterNiveau s)"
  by (auto simp: matchInscription_def matchesIgnoringCase_def includes_str_sublist)

text \<open>
  C9. With an empty search text, no track filter and no level filter, the filtered view
  is the list itself. For every search text and every filter, the filtered view is a
  subsequence of the list: its entries are entries of the list, in the order of the
  list.
\<close>

theorem filteredInscriptions_identity_subseq:
  "(searchNom s = [] \<and> filterFiliere s = [] \<and> filterNiveau s = [] \<longrightarrow>
      filteredInscriptions toLowerCase s = inscriptions s) \<and>
   subseq (filteredInscriptions toLowerCase s) (inscriptions s)"
  by (simp add: filteredInscriptions_def matchInscription_def)

theorem filteredInscriptions_identity_subseq_witness:
  "searchNom ownState = [] \<and> filterFiliere ownState = [] \<and> filterNiveau ownState = [] \<and>
   filteredInscriptions toLowerCase_ascii ownState = inscriptions ownState \<and>
   subseq (filteredInscriptions toLowerCase_ascii trackState) (inscriptions trackState)"
proof -
  have empty: "searchNom ownState = [] \<and> filterFiliere ownState = [] \<and> filterNiveau ownState = []"
    by (simp add: ownState_def initialState_def)
  from empty
    filteredInscriptions_identity_subseq [of ownState toLowerCase_ascii]
    filteredInscriptions_identity_subseq [of trackState toLowerCase_ascii]
  show ?thesis by simp
qed

lemma digit_phoneChar: "isDigit c \<Longrightarrow> phoneChar c"
  by (simp add: phoneChar_def)

lemma prefix_phoneChars:
  "p = js ''+237'' \<or> p = js ''237'' \<or> p = [] \<Longrightarrow> list_all phoneChar p"
  by (auto simp: js_def phoneChar_def isDigit_def)

lemma valid_phone_chars:
  assumes "regex_test phoneRegex (removeWhiteSpace tel)"
  shows "list_all phoneChar tel"
proof -
  from assms obtain p d where shape: "removeWhiteSpace tel = p @ 0x36 # d"
      "p = js ''+237'' \<or> p = js ''237'' \<or> p = []" "\<forall>x\<in>set d. isDigit x"
    unfolding phoneRegex_language by (elim exE conjE)
  have six: "phoneChar 0x36"
    by (simp add: phoneChar_def isDigit_def)
  from shape(3) have "list_all phoneChar d"
    by (simp add: list_all_iff digit_phoneChar)
  with prefix_phoneChars [OF shape(2)] six have "list_all phoneChar (removeWhiteSpace tel)"
    unfolding shape(1) by simp
  then have "\<forall>c\<in>set tel. \<not> isWhiteSpace c \<longrightarrow> phoneChar c"
    by (simp add: removeWhiteSpace_def list_all_iff)
  then show ?thesis
    by (auto simp: list_all_iff phoneChar_def)
qed

lemma sublist_list_all: "sublist xs ys \<Longrightarrow> list_all P ys \<Longrightarrow> list_all P xs"
  by (auto simp: sublist_def)

lemma phone_match_ignoring_case:
  assumes keeps: "\<And>str. list_all phoneChar str \<Longrightarrow> toLowerCase str = str"
    and reflects: "\<And>str. list_all phoneChar (toLowerCase str) \<Longrightarrow> toLowerCase str = str"
    and tel: "list_all phoneChar tel"
  shows "matchesIgnoringCase toLowerCase search tel \<longleftrightarrow> sublist search tel"
proof
  assume "matchesIgnoringCase toLowerCase search tel"
  with keeps [OF tel] have found: "sublist (toLowerCase search) tel"
    by (simp add: matchesIgnoringCase_def)
  from found tel have "list_all phoneChar (toLowerCase search)"
    by (rule sublist_list_all)
  then have "toLowerCase search = search"
    by (rule reflects)
  with found show "sublist search tel" by simp
next
  assume found: "sublist search tel"
  from found tel have "list_all phoneChar search"
    by (rule sublist_list_all)
  then have "toLowerCase search = search"
    by (rule keeps)
  with found keeps [OF tel] show "matchesIgnoringCase toLowerCase search tel"
    by (simp add: matchesIgnoringCase_def)
qed

lemma filteredInscriptions_amendedView:
  "filteredInscriptions toLowerCase s = amendedView toLowerCase s"
  unfolding filteredInscriptions_def amendedView_def
  by (rule filter_cong) (simp_all add: matchInscription_amended)

lemma letters_not_phoneChar:
  assumes "65 \<le> unat c" and "unat c \<le> 122"
  shows "\<not> phoneChar c"
proof
  assume "phoneChar c"
  then consider "unat c \<le> 13" | "unat c = 32" | "unat c = 43" | "unat c \<le> 57" | "160 \<le> unat c"
    unfolding phoneChar_def isWhiteSpace_def isDigit_def
    by (auto simp: word_le_nat_alt)
  then show False using assms by cases simp_all
qed

lemma phoneChar_not_upper:
  assumes "phoneChar c"
  shows "\<not> (0x41 \<le> c \<and> c \<le> 0x5A)"
proof
  assume "0x41 \<le> c \<and> c \<le> 0x5A"
  then have "65 \<le> unat c" and "unat c \<le> 122"
    by (simp_all add: word_le_nat_alt)
  then have "\<not> phoneChar c" by (rule letters_not_phoneChar)
  with assms show False by simp
qed

lemma lower_not_phoneChar:
  assumes "0x41 \<le> c" and "c \<le> 0x5A"
  shows "\<not> phoneChar (c + 0x20)"
proof -
  from assms have range: "65 \<le> unat c" "unat c \<le> 90"
    by (simp_all add: word_le_nat_alt)
  then have "unat c + unat (0x20 :: codeunit) < 2 ^ LENGTH(16)"
    by simp
  then have "unat (c + 0x20) = unat c + unat (0x20 :: codeunit)"
    by (simp only: unat_add_lem)
  with range have "65 \<le> unat (c + 0x20)" and "unat (c + 0x20) \<le> 122"
    by simp_all
  then show ?thesis by (rule letters_not_phoneChar)
qed

lemma toLowerCase_ascii_keeps:
  "list_all phoneChar str \<Longrightarrow> toLowerCase_ascii str = str"
  by (induction str) (simp_all add: toLowerCase_ascii_def phoneChar_not_upper)

lemma toLowerCase_ascii_reflects:
  "list_all phoneChar (toLowerCase_ascii str) \<Longrightarrow> toLowerCase_ascii str = str"
  by (induction str) (auto simp: toLowerCase_ascii_def lower_not_phoneChar split: if_splits)

text \<open>
  C5. On every list whose phone numbers pass the check of \<open>validateForm\<close>, as the data
  model requires, and for every filter state, the filtered view is the list filtered by
  the conjunction of three conditions: the search text is empty, or occurs without
  regard to case in the name or in the phone number; the track is the track filter,
  when one is set; the level is the level filter, when one is set. With the track
  filter \<open>iw\<close>, every entry of the view has the track \<open>iw\<close>, and with no other filter
  the view is exactly the entries of the list whose track is \<open>iw\<close>. The source matches
  the phone number as it is written; on digits, \<open>+\<close> and white space this is the match
  without regard to case, for every \<open>toLowerCase\<close> that, like the builtin, changes
  letters only and changes them to letters: it leaves a string of such characters as it
  is, and a string that it turns into such characters was already that string.
\<close>

theorem filteredInscriptions_specified:
  assumes keeps: "\<And>str. list_all phoneChar str \<Longrightarrow> toLowerCase str = str"
    and reflects: "\<And>str. list_all phoneChar (toLowerCase str) \<Longrightarrow> toLowerCase str = str"
    and valid: "validPhones s"
  shows "filteredInscriptions toLowerCase s = specifiedView toLowerCase s \<and>
   (filterFiliere s = js ''iw'' \<longrightarrow>
      (\<forall>insc\<in>set (filteredInscriptions toLowerCase s). filiere insc = js ''iw'')) \<and>
   (searchNom s = [] \<and> filterFiliere s = js ''iw'' \<and> filterNiveau s = [] \<longrightarrow>
      filteredInscriptions toLowerCase s =
        filter (\<lambda>insc. filiere insc = js ''iw'') (inscriptions s))"
proof (intro conjI impI)
  have "amendedView toLowerCase s = specifiedView toLowerCase s"
    unfolding amendedView_def specifiedView_def
  proof (rule filter_cong [OF refl])
    fix insc
    assume "insc \<in> set (inscriptions s)"
    with valid have "regex_test phoneRegex (removeWhiteSpace (telephone insc))"
      by (simp add: validPhones_def list_all_iff)
    then have "list_all phoneChar (telephone insc)"
      by (rule valid_phone_chars)
    with keeps reflects
    have "matchesIgnoringCase toLowerCase (searchNom s) (telephone insc) \<longleftrightarrow>
        sublist (searchNom s) (telephone insc)"
      by (rule phone_match_ignoring_case)
    then show "((searchNom s = [] \<or>
         matchesIgnoringCase toLowerCase (searchNom s) (nom insc) \<or>
         sublist (searchNom s) (telephone insc)) \<and>
        (filterFiliere s \<noteq> [] \<longrightarrow> filiere insc = filterFiliere s) \<and>
        (filterNiveau s \<noteq> [] \<longrightarrow> niveau insc = filterNiveau s)) =
       ((searchNom s = [] \<or>
         matchesIgnoringCase toLowerCase (searchNom s) (nom insc) \<or>
         matchesIgnoringCase toLowerCase (searchNom s) (telephone insc)) \<and>
        (filterFiliere s \<noteq> [] \<longrightarrow> filiere insc = filterFiliere s) \<and>
        (filterNiveau s \<noteq> [] \<longrightarrow> niveau insc = filterNiveau s))"
      by simp
  qed
  then show "filteredInscriptions toLowerCase s = specifiedView toLowerCase s"
    by (simp add: filteredInscriptions_amendedView)
next
  assume "filterFiliere s = js ''iw''"
  then show "\<forall>insc\<in>set (filteredInscriptions toLowerCase s). filiere insc = js ''iw''"
    by (auto simp: filteredInscriptions_def matchInscription_def js_def)
next
  assume "searchNom s = [] \<and> filterFiliere s = js ''iw'' \<and> filterNiveau s = []"
  then show "filteredInscriptions toLowerCase s =
        filter (\<lambda>insc. filiere insc = js ''iw'') (inscriptions s)"
    unfolding filteredInscriptions_def
    by (intro filter_cong) (simp_all add: matchInscription_def js_def)
qed

theorem filteredInscriptions_specified_witness:
  "validPhones digitsState \<and>
   filteredInscriptions toLowerCase_ascii digitsState =
     specifiedView toLowerCase_ascii digitsState \<and>
   filteredInscriptions toLowerCase_ascii digitsState =
     [exampleInscription (js ''1'') (js ''user-1'') (js ''677 123 456''),
      exampleInscription (js ''3'') (js ''user-1'') (js ''+237 699 123 456'')] \<and>
   validPhones trackState \<and>
   searchNom trackState = [] \<and> filterFiliere trackState = js ''iw'' \<and>
   filterNiveau trackState = [] \<and>
   filteredInscriptions toLowerCase_ascii trackState =
     filter (\<lambda>insc. filiere insc = js ''iw'') (inscriptions trackState) \<and>
   filter (\<lambda>insc. filiere insc = js ''iw'') (inscriptions trackState) =
     [exampleInscription (js ''1'') (js ''user-1'') (js ''677123456''),
      exampleInscription (js ''3'') (js ''user-1'') (js ''+237677123456'')] \<and>
   list_all (\<lambda>insc. filiere insc = js ''iw'')
     (filteredInscriptions toLowerCase_ascii trackState)"
proof -
  have digits: "validPhones digitsState"
    by (simp add: validPhones_def digitsState_def initialState_def exampleInscription_def
          regex_test_def matches_at_def phoneRegex_def removeWhiteSpace_def
          isWhiteSpace_def js_def repeat_numeral)
  have tracks: "validPhones trackState"
    by (simp add: validPhones_def trackState_def initialState_def exampleInscription_def
          regex_test_def matches_at_def phoneRegex_def removeWhiteSpace_def
          isWhiteSpace_def js_def repeat_numeral)
  have found: "filteredInscriptions toLowerCase_ascii digitsState =
      [exampleInscription (js ''1'') (js ''user-1'') (js ''677 123 456''),
       exampleInscription (js ''3'') (js ''user-1'') (js ''+237 699 123 456'')]"
    by (simp add: filteredInscriptions_def matchInscription_def digitsState_def
          toLowerCase_ascii_def initialState_def exampleInscription_def js_def)
  have filters: "searchNom trackState = [] \<and> filterFiliere trackState = js ''iw'' \<and>
      filterNiveau trackState = []"
    by (simp add: trackState_def initialState_def)
  have track: "filterFiliere trackState = js ''iw''"
    by (simp add: trackState_def initialState_def)
  have listed: "filter (\<lambda>insc. filiere insc = js ''iw'') (inscriptions trackState) =
      [exampleInscription (js ''1'') (js ''user-1'') (js ''677123456''),
       exampleInscription (js ''3'') (js ''user-1'') (js ''+237677123456'')]"
    by (simp add: trackState_def initialState_def exampleInscription_def js_def)
  have same: "filteredInscriptions toLowerCase_ascii digitsState =
      specifiedView toLowerCase_ascii digitsState"
    by (rule filteredInscriptions_specified [THEN conjunct1])
      (erule toLowerCase_ascii_keeps, erule toLowerCase_ascii_reflects, rule digits)
  have exact: "filteredInscriptions toLowerCase_ascii trackState =
      filter (\<lambda>insc. filiere insc = js ''iw'') (inscriptions trackState)"
    by (rule filteredInscriptions_specified [THEN conjunct2, THEN conjunct2, THEN mp])
      (erule toLowerCase_ascii_keeps, erule toLowerCase_ascii_reflects, rule tracks,
        rule filters)
  have only: "\<forall>insc\<in>set (filteredInscriptions toLowerCase_ascii trackState).
      filiere insc = js ''iw''"
    by (rule filteredInscriptions_specified [THEN conjunct2, THEN conjunct1, THEN mp])
      (erule toLowerCase_ascii_keeps, erule toLowerCase_ascii_reflects, rule tracks,
        rule track)
  from only have every: "list_all (\<lambda>insc. filiere insc = js ''iw'')
      (filteredInscriptions toLowerCase_ascii trackState)"
    by (simp only: list_all_iff)
  from digits same found tracks filters exact listed every show ?thesis
    by (intro conjI) (elim conjE, assumption)+
qed

text \<open>
  The hypothesis on the phone numbers is used: for a list that was not made by the
  form, with the phone number \<open>6 BIS\<close>, and the search text \<open>bis\<close>, the view is empty,
  and the match without regard to case keeps the registration.
\<close>

lemma specifiedView_needs_valid_phones:
  "\<not> validPhones searchState \<and>
   filteredInscriptions toLowerCase_ascii searchState \<noteq>
   specifiedView toLowerCase_ascii searchState"
proof -
  have "\<not> validPhones searchState"
    by (simp add: validPhones_def searchState_def initialState_def exampleInscription_def
          regex_test_def matches_at_def phoneRegex_def removeWhiteSpace_def
          isWhiteSpace_def js_def repeat_numeral)
  moreover have "filteredInscriptions toLowerCase_ascii searchState = []"
    by (simp add: filteredInscriptions_def matchInscription_def searchState_def
          toLowerCase_ascii_def initialState_def exampleInscription_def js_def)
  moreover have "specifiedView toLowerCase_ascii searchState = inscriptions searchState"
    by (simp add: specifiedView_def matchesIgnoringCase_def includes_str_sublist [symmetric]
          searchState_def toLowerCase_ascii_def initialState_def exampleInscription_def js_def)
  moreover have "inscriptions searchState \<noteq> []"
    by (simp add: searchState_def initialState_def)
  ultimately show ?thesis by simp
qed

end
